theory Spec2Isabelle
  imports Main "HOL-Library.Sublist" "HOL-Library.AList"
begin

section \<open>Errors and results\<close>

text \<open>
  Every \<^verbatim>\<open>throw\<close> and every rejected promise of the resolver is a value of
  \<open>error\<close>; a function that may throw returns \<open>error + 'a\<close> with \<open>Inl\<close> for the
  thrown value. The constructors carry the names the specification gives to the
  messages of \<^verbatim>\<open>resolver.ts\<close>:
  \<^item> \<open>NoContractFound\<close>: \<^verbatim>\<open>'No contract was found'\<close>;
  \<^item> \<open>NoCertificatesFound\<close>: \<^verbatim>\<open>'No tls certificates were found.'\<close>;
  \<^item> \<open>NoValidChain\<close>: \<^verbatim>\<open>'No valid tls chains was found.'\<close>;
  \<^item> \<open>AmbiguousChain\<close>: \<^verbatim>\<open>'Multiple valid tls chains were found.'\<close>;
  \<^item> \<open>AmbiguousCandidate n\<close>: \<^verbatim>\<open>`${addresses.length} contracts were found. Multiple were valid.`\<close>;
  \<^item> \<open>NoValidCandidate n\<close>: \<^verbatim>\<open>`${addresses.length} contracts were found. None was valid.`\<close>;
  \<^item> \<open>DomainMismatch\<close>: \<^verbatim>\<open>'DID identifier does not match contract domain'\<close>;
  \<^item> \<open>Expired\<close>: \<^verbatim>\<open>'Contract expired'\<close>;
  \<^item> \<open>RejectedFalse\<close>: the value \<^verbatim>\<open>false\<close> that \<^verbatim>\<open>checkForOCSP\<close> rejects with;
  \<^item> \<open>NumericOverflow\<close>: \<^verbatim>\<open>BigNumber.toNumber()\<close> outside the safe integer range;
  \<^item> \<open>TypeError\<close>: a method called on a value that does not have it;
  \<^item> \<open>External msg\<close>: anything thrown by a library or by the ledger.
\<close>

datatype error =
    NoContractFound
  | NoCertificatesFound
  | NoValidChain
  | AmbiguousChain
  | AmbiguousCandidate nat
  | NoValidCandidate nat
  | DomainMismatch
  | Expired
  | RejectedFalse
  | NumericOverflow
  | TypeError
  | External string

text \<open>Sequencing of two steps where the first may throw (an \<^verbatim>\<open>await\<close> or a plain call).\<close>

definition andThen :: "error + 'a \<Rightarrow> ('a \<Rightarrow> error + 'b) \<Rightarrow> error + 'b" where
  "andThen m f = (case m of Inl e \<Rightarrow> Inl e | Inr x \<Rightarrow> f x)"

text \<open>\<^verbatim>\<open>xs[i]\<close> of JavaScript: \<^verbatim>\<open>undefined\<close> (here \<open>None\<close>) out of range.\<close>

definition nth_opt :: "'a list \<Rightarrow> nat \<Rightarrow> 'a option" where
  "nth_opt xs i = (if i < length xs then Some (xs ! i) else None)"

section \<open>Data model\<close>

type_synonym address = string

text \<open>
  What the resolver reads of a parsed certificate (node-forge's \<^verbatim>\<open>pki.Certificate\<close>):
  the attributes of its subject, in order; \<open>None\<close> is a certificate object without
  \<^verbatim>\<open>subject\<close>.
\<close>

record x509Attribute =
  attr_name :: string
  attr_value :: string

record certificate =
  subject :: "x509Attribute list option"

text \<open>\<^verbatim>\<open>{ chain: string[]; valid: boolean }\<close>, the result of \<^verbatim>\<open>verifyChain\<close>.\<close>

record outcome =
  chain :: "string list"
  valid :: bool

text \<open>\<^verbatim>\<open>Attribute\<close> of \<^verbatim>\<open>types.ts\<close>.\<close>

record Attribute =
  path :: string
  value' :: string

text \<open>
  The collaborators of the resolver: node's root certificates, node-forge, the
  \<^verbatim>\<open>ocsp\<close> package, the ledger contracts read through ethers, \<^verbatim>\<open>object-hash\<close>,
  node's \<^verbatim>\<open>crypto\<close>, \<^verbatim>\<open>jose\<close> and the clock. Each is a parameter. A string argument
  that the code may pass as \<^verbatim>\<open>undefined\<close> (\<^verbatim>\<open>chain[0]\<close>, \<^verbatim>\<open>chain[1]\<close>) is a
  \<open>string option\<close>. A contract object is identified by its address.
  \<^item> \<open>getOCSPURI cert\<close> is the \<^verbatim>\<open>uri\<close> the callback of \<^verbatim>\<open>ocsp.getOCSPURI\<close> receives;
  \<^item> \<open>ocsp_check cert issuer\<close> is the pair \<^verbatim>\<open>(err, res)\<close> the callback of
    \<^verbatim>\<open>ocsp.check\<close> receives, \<^verbatim>\<open>res\<close> given by its \<^verbatim>\<open>type\<close>;
  \<^item> the contract readers return the \<^verbatim>\<open>BigNumber\<close>s as integers.

  Both \<^verbatim>\<open>ocsp\<close> functions are taken to call back; a promise that never settles is
  not modelled. A string is the list of its code units, so that \<open>drop 8\<close> is
  \<^verbatim>\<open>substring(8)\<close>.
\<close>

record env =
  rootCertificates :: "string list"
  certificateFromPem :: "string option \<Rightarrow> error + certificate"
  verifyCertificateChain :: "certificate list \<Rightarrow> certificate list \<Rightarrow> error + bool"
  getOCSPURI :: "string option \<Rightarrow> string option"
  ocsp_check :: "string option \<Rightarrow> string option \<Rightarrow> error \<times> string option"
  getContracts :: "string \<Rightarrow> error + address list"
  getChainCount :: "string \<Rightarrow> error + int"
  getChain :: "string \<Rightarrow> nat \<Rightarrow> error + string"
  contract_signature :: "address \<Rightarrow> error + string"
  contract_domain :: "address \<Rightarrow> error + string"
  getAttributeCount :: "address \<Rightarrow> error + int"
  getAttribute :: "address \<Rightarrow> nat \<Rightarrow> error + (string \<times> string)"
  contract_expiry :: "address \<Rightarrow> error + int"
  now :: int
  hashContract :: "string \<Rightarrow> address \<Rightarrow> Attribute list \<Rightarrow> int option \<Rightarrow> string"
  verify :: "string option \<Rightarrow> string \<Rightarrow> string \<Rightarrow> error + bool"
  x509ToJwk :: "string option \<Rightarrow> error + string"

section \<open>utils.ts: the chain splitter\<close>

definition BEGIN_CERTIFICATE :: string where
  "BEGIN_CERTIFICATE = ''-----BEGIN CERTIFICATE-----''"

text \<open>
  \<^verbatim>\<open>chain.split(/\n(?=-----BEGIN CERTIFICATE-----)/g)\<close>: the string is cut at every
  line feed that the begin marker follows; the line feed is the separator and is in
  neither piece. \<open>splitAcc piece s\<close> scans \<open>s\<close> with the current piece reversed in \<open>piece\<close>.
\<close>

fun splitAcc :: "string \<Rightarrow> string \<Rightarrow> string list" where
  "splitAcc piece [] = [rev piece]"
| "splitAcc piece (c # cs) =
     (if c = CHR 0x0A \<and> prefix BEGIN_CERTIFICATE cs
      then rev piece # splitAcc [] cs
      else splitAcc (c # piece) cs)"

definition chainToCerts :: "string \<Rightarrow> string list" where
  "chainToCerts chn = splitAcc [] chn"

section \<open>utils.ts: revocation, subject and chain validation\<close>

text \<open>
  \<^verbatim>\<open>checkForOCSP\<close>: the promise resolves with \<^verbatim>\<open>true\<close> when the callback receives a
  truthy \<^verbatim>\<open>uri\<close> and is rejected with \<^verbatim>\<open>false\<close> otherwise; the rejection is thrown
  at the \<^verbatim>\<open>await\<close> of the caller.
\<close>

definition checkForOCSP :: "env \<Rightarrow> string option \<Rightarrow> error + bool" where
  "checkForOCSP e cert =
     (case getOCSPURI e cert of
        None \<Rightarrow> Inl RejectedFalse
      | Some uri \<Rightarrow> if uri = [] then Inl RejectedFalse else Inr True)"

text \<open>\<^verbatim>\<open>checkOCSP\<close>: rejected with \<^verbatim>\<open>err\<close> when there is no \<^verbatim>\<open>res\<close>, else \<^verbatim>\<open>res.type === 'good'\<close>.\<close>

definition checkOCSP :: "env \<Rightarrow> string option \<Rightarrow> string option \<Rightarrow> error + bool" where
  "checkOCSP e cert issuerCert =
     (case ocsp_check e cert issuerCert of
        (err, None) \<Rightarrow> Inl err
      | (err, Some ty) \<Rightarrow> Inr (ty = ''good''))"

text \<open>\<^verbatim>\<open>pkiObject.subject?.attributes[0]?.value === subject\<close>.\<close>

definition firstSubjectValue :: "certificate \<Rightarrow> string option" where
  "firstSubjectValue pkiObject =
     (case subject pkiObject of
        None \<Rightarrow> None
      | Some attributes \<Rightarrow> (case attributes of [] \<Rightarrow> None | a # _ \<Rightarrow> Some (attr_value a)))"

definition verifyCertSubject :: "env \<Rightarrow> string option \<Rightarrow> string \<Rightarrow> error + bool" where
  "verifyCertSubject e cert subj =
     andThen (certificateFromPem e cert) (\<lambda>pkiObject.
       Inr (firstSubjectValue pkiObject = Some subj))"

text \<open>\<^verbatim>\<open>chain.map((pem) => pki.certificateFromPem(pem))\<close>: the first failure is thrown.\<close>

fun certificatesFromPems :: "env \<Rightarrow> string list \<Rightarrow> error + certificate list" where
  "certificatesFromPems e [] = Inr []"
| "certificatesFromPems e (pem # pems) =
     andThen (certificateFromPem e (Some pem)) (\<lambda>c.
       andThen (certificatesFromPems e pems) (\<lambda>cs. Inr (c # cs)))"

text \<open>
  \<^verbatim>\<open>verifyChain\<close>. Both \<^verbatim>\<open>&&\<close> short-circuit: the subject is compared only when the
  path validation returned \<^verbatim>\<open>true\<close>, and \<^verbatim>\<open>checkOCSP\<close> is awaited only when \<^verbatim>\<open>valid\<close>
  is still \<^verbatim>\<open>true\<close>.
\<close>

definition verifyChain :: "env \<Rightarrow> string list \<Rightarrow> string \<Rightarrow> certificate list \<Rightarrow> error + outcome" where
  "verifyChain e pemArray domain caStore =
     andThen (certificatesFromPems e pemArray) (\<lambda>certificateArray.
     andThen (verifyCertificateChain e caStore certificateArray) (\<lambda>pathOk.
     andThen (if pathOk then verifyCertSubject e (nth_opt pemArray 0) domain else Inr False) (\<lambda>v.
     andThen (checkForOCSP e (nth_opt pemArray 0)) (\<lambda>hasOCSP.
       if hasOCSP then
         (if v then
            andThen (checkOCSP e (nth_opt pemArray 0) (nth_opt pemArray 1)) (\<lambda>r.
              Inr \<lparr>chain = pemArray, valid = r\<rparr>)
          else Inr \<lparr>chain = pemArray, valid = False\<rparr>)
       else Inr \<lparr>chain = pemArray, valid = v\<rparr>))))"

section \<open>utils.ts: processChains\<close>

text \<open>
  \<^verbatim>\<open>Array.from(new Set(chains))\<close>: a set keeps the first occurrence of each element,
  in insertion order.
\<close>

fun setAdd :: "'a list \<Rightarrow> 'a list \<Rightarrow> 'a list" where
  "setAdd seen [] = seen"
| "setAdd seen (x # xs) = setAdd (if x \<in> set seen then seen else seen @ [x]) xs"

definition arrayFromSet :: "'a list \<Rightarrow> 'a list" where
  "arrayFromSet xs = setAdd [] xs"

text \<open>
  \<^verbatim>\<open>rootCertificates.map((cert, idx) => { try {...} catch { unsupportedRootCertIdxs.push(idx) } })\<close>:
  the state is the pair of \<^verbatim>\<open>pkis\<close> built so far and \<^verbatim>\<open>unsupportedRootCertIdxs\<close>;
  an unparsed root leaves \<^verbatim>\<open>undefined\<close> (\<open>None\<close>) in \<^verbatim>\<open>pkis\<close>.
\<close>

fun mapRoots :: "env \<Rightarrow> nat \<Rightarrow> string list \<Rightarrow> certificate option list \<times> nat list
    \<Rightarrow> certificate option list \<times> nat list" where
  "mapRoots e idx [] st = st"
| "mapRoots e idx (cert # rest) (pkis, unsupportedRootCertIdxs) =
     (case certificateFromPem e (Some cert) of
        Inr c \<Rightarrow> mapRoots e (Suc idx) rest (pkis @ [Some c], unsupportedRootCertIdxs)
      | Inl err \<Rightarrow> mapRoots e (Suc idx) rest (pkis @ [None], unsupportedRootCertIdxs @ [idx]))"

text \<open>
  Lines 128 to 138 of \<^verbatim>\<open>processChains\<close>: the store and the skipped indices. The store
  \<^verbatim>\<open>pki.createCaStore(pkis.filter((pki) => pki !== undefined))\<close> is the list of the
  certificates added to it.
\<close>

definition caStoreFromRoots :: "env \<Rightarrow> string list \<Rightarrow> certificate list \<times> nat list" where
  "caStoreFromRoots e roots =
     (let (pkis, unsupportedRootCertIdxs) = mapRoots e 0 roots ([], []);
          definedPkis = filter (\<lambda>p. p \<noteq> None) pkis
      in (map the definedPkis, unsupportedRootCertIdxs))"

text \<open>The loop \<^verbatim>\<open>for (let chain of filterdChains) verifiedChains.push(await verifyChain(...))\<close>.\<close>

fun verifyChains :: "env \<Rightarrow> string \<Rightarrow> certificate list \<Rightarrow> string list \<Rightarrow> outcome list
    \<Rightarrow> error + outcome list" where
  "verifyChains e domain caStore [] verifiedChains = Inr verifiedChains"
| "verifyChains e domain caStore (chn # rest) verifiedChains =
     andThen (verifyChain e (chainToCerts chn) domain caStore) (\<lambda>out.
       verifyChains e domain caStore rest (verifiedChains @ [out]))"

definition processChains :: "env \<Rightarrow> string list \<Rightarrow> string \<Rightarrow> error + outcome list" where
  "processChains e chains' domain =
     (let filterdChains = arrayFromSet chains';
          (caStore, unsupportedRootCertIdxs) = caStoreFromRoots e (rootCertificates e)
      in verifyChains e domain caStore filterdChains [])"

section \<open>resolver.ts\<close>

text \<open>
  \<^verbatim>\<open>BigNumber.toNumber()\<close> throws outside the 53 bits a number holds safely.
  \<^verbatim>\<open>new Date(ms)\<close> is an invalid date (\<open>None\<close>) beyond 8.64e15 milliseconds, and an
  invalid date compares \<^verbatim>\<open>false\<close> with everything.
\<close>

definition toNumber :: "int \<Rightarrow> error + int" where
  "toNumber n = (if - (2 ^ 53) < n \<and> n < 2 ^ 53 then Inr n else Inl NumericOverflow)"

definition newDate :: "int \<Rightarrow> int option" where
  "newDate ms = (if - 8640000000000000 \<le> ms \<and> ms \<le> 8640000000000000 then Some ms else None)"

definition dateBefore :: "int option \<Rightarrow> int \<Rightarrow> bool" where
  "dateBefore d t = (case d of None \<Rightarrow> False | Some ms \<Rightarrow> ms < t)"

text \<open>The loop of \<^verbatim>\<open>getChains\<close> over \<^verbatim>\<open>i = 0 .. chainCount - 1\<close>.\<close>

fun readChains :: "env \<Rightarrow> string \<Rightarrow> nat list \<Rightarrow> error + string list" where
  "readChains e domain [] = Inr []"
| "readChains e domain (i # is) =
     andThen (getChain e domain i) (\<lambda>cert.
       andThen (readChains e domain is) (\<lambda>chains. Inr (cert # chains)))"

definition getChains :: "env \<Rightarrow> string \<Rightarrow> error + string list" where
  "getChains e domain =
     andThen (getChainCount e domain) (\<lambda>chainCountBN.
     andThen (toNumber chainCountBN) (\<lambda>chainCount.
       readChains e domain [0..<nat chainCount]))"

text \<open>The attribute loop of \<^verbatim>\<open>verifyContract\<close>.\<close>

fun readAttributes :: "env \<Rightarrow> address \<Rightarrow> nat list \<Rightarrow> error + Attribute list" where
  "readAttributes e contract [] = Inr []"
| "readAttributes e contract (i # is) =
     andThen (getAttribute e contract i) (\<lambda>attribute.
       andThen (readAttributes e contract is) (\<lambda>attributes.
         Inr (\<lparr>path = fst attribute, value' = snd attribute\<rparr> # attributes)))"

definition verifyContract :: "env \<Rightarrow> address \<Rightarrow> string \<Rightarrow> string option \<Rightarrow> error + bool" where
  "verifyContract e contract did cert =
     andThen (contract_signature e contract) (\<lambda>signature.
       let didDomain = drop 8 did in
       andThen (contract_domain e contract) (\<lambda>contractDomain.
         if didDomain \<noteq> contractDomain then Inl DomainMismatch
         else
           andThen (getAttributeCount e contract) (\<lambda>attributeCountBN.
           andThen (toNumber attributeCountBN) (\<lambda>attributeCount.
           andThen (readAttributes e contract [0..<nat attributeCount]) (\<lambda>attributes.
           andThen (contract_expiry e contract) (\<lambda>expiryBN.
           andThen (toNumber expiryBN) (\<lambda>expiryMs.
             let expiry = newDate expiryMs in
             if dateBefore expiry (now e) then Inl Expired
             else verify e cert signature (hashContract e didDomain contract attributes expiry))))))))"

text \<open>
  The loop over \<^verbatim>\<open>addresses\<close> in \<^verbatim>\<open>resolveContract\<close>. \<open>n\<close> is \<^verbatim>\<open>addresses.length\<close> and
  \<open>validContract\<close> the variable of that name (\<open>None\<close> while it is unset). An exception
  of \<^verbatim>\<open>verifyContract\<close> is caught and logged, which leaves \<^verbatim>\<open>valid\<close> undefined, hence
  falsy.
\<close>

fun contractLoop :: "env \<Rightarrow> string \<Rightarrow> string option \<Rightarrow> nat \<Rightarrow> address list \<Rightarrow> address option
    \<Rightarrow> error + address option" where
  "contractLoop e did cert n [] validContract = Inr validContract"
| "contractLoop e did cert n (addr # rest) validContract =
     (let isValid = (case verifyContract e addr did cert of Inl err \<Rightarrow> False | Inr v \<Rightarrow> v) in
      if isValid \<and> validContract = None then contractLoop e did cert n rest (Some addr)
      else if isValid then Inl (AmbiguousCandidate n)
      else contractLoop e did cert n rest validContract)"

text \<open>
  Lines 42 to 80 of \<^verbatim>\<open>resolveContract\<close>: what happens once \<^verbatim>\<open>processChains\<close> has
  returned \<^verbatim>\<open>verfiedChains\<close>. The result is the valid contract with the key of the
  leaf of the valid chain.
\<close>

definition selectContract :: "env \<Rightarrow> string \<Rightarrow> address list \<Rightarrow> outcome list
    \<Rightarrow> error + (address \<times> string)" where
  "selectContract e did addresses verfiedChains =
     (let validChains = filter valid verfiedChains in
      if length validChains = 0 then Inl NoValidChain
      else if length validChains > 1 then Inl AmbiguousChain
      else
        (let leaf = nth_opt (chain (hd validChains)) 0 in
         andThen (contractLoop e did leaf (length addresses) addresses None) (\<lambda>validContract.
           case validContract of
             Some contract \<Rightarrow> andThen (x509ToJwk e leaf) (\<lambda>jwk. Inr (contract, jwk))
           | None \<Rightarrow> Inl (NoValidCandidate (length addresses)))))"

definition resolveContract :: "env \<Rightarrow> string \<Rightarrow> error + (address \<times> string)" where
  "resolveContract e did =
     (let domain = drop 8 did in
      andThen (getContracts e domain) (\<lambda>addresses.
        if length addresses = 0 then Inl NoContractFound
        else
          andThen (getChains e domain) (\<lambda>chains.
            if length chains = 0 then Inl NoCertificatesFound
            else
              andThen (processChains e chains domain) (\<lambda>verfiedChains.
                selectContract e did addresses verfiedChains))))"

section \<open>utils.ts: addValueAtPath\<close>

text \<open>
  The values of a document: strings, arrays and plain objects. An object is the list
  of its own properties in insertion order, followed by its prototype chain: the own
  properties of its prototype, of the prototype of that, and so on, up to but not
  including \<^verbatim>\<open>Object.prototype\<close>. An object literal has the empty chain.
  \<open>AList.update\<close> overwrites a property in place and appends a new one, as an
  assignment to an own property does.
\<close>

datatype jsval =
    JStr string
  | JArr "jsval list"
  | JObj "(string \<times> jsval) list" "(string \<times> jsval) list list"

type_synonym plainObject = "(string \<times> jsval) list \<times> (string \<times> jsval) list list"

fun isObj :: "jsval \<Rightarrow> bool" where
  "isObj (JObj props protos) = True"
| "isObj j = False"

text \<open>
  \<^verbatim>\<open>currentObj\<close> is a reference into the object passed in. It is modelled by the way
  from the root to it: \<open>Prop k\<close> goes to the own property \<open>k\<close> of an object, \<open>Elem i\<close>
  to element \<open>i\<close> of an array and \<open>Proto\<close> to the prototype of an object.
\<close>

datatype step = Prop string | Elem nat | Proto

fun child :: "jsval \<Rightarrow> step \<Rightarrow> jsval option" where
  "child (JObj props protos) (Prop k) = map_of props k"
| "child (JObj props (p # ps)) Proto = Some (JObj p ps)"
| "child (JArr xs) (Elem i) = nth_opt xs i"
| "child j s = None"

fun setChild :: "jsval \<Rightarrow> step \<Rightarrow> jsval \<Rightarrow> jsval" where
  "setChild (JObj props protos) (Prop k) v = JObj (AList.update k v props) protos"
| "setChild (JObj props (p # ps)) Proto (JObj p' ps') = JObj props (p' # ps')"
| "setChild (JArr xs) (Elem i) v = JArr (xs[i := v])"
| "setChild j s v = j"

fun valueAt :: "jsval \<Rightarrow> step list \<Rightarrow> jsval option" where
  "valueAt j [] = Some j"
| "valueAt j (s # p) = (case child j s of None \<Rightarrow> None | Some c \<Rightarrow> valueAt c p)"

fun replaceAt :: "jsval \<Rightarrow> step list \<Rightarrow> jsval \<Rightarrow> jsval" where
  "replaceAt j [] new = new"
| "replaceAt j (s # p) new =
     (case child j s of None \<Rightarrow> j | Some c \<Rightarrow> setChild j s (replaceAt c p new))"

text \<open>
  The read \<^verbatim>\<open>currentObj[key]\<close> goes through the prototype chain. \<open>inherited\<close> finds
  the first object of the chain that has the property as its own, with the number
  of prototype links to it. Where no object of the chain has it, the read reaches
  \<^verbatim>\<open>Object.prototype\<close>, whose members are functions, and for \<^verbatim>\<open>__proto__\<close> the
  prototype of \<^verbatim>\<open>currentObj\<close>: all of them truthy, none an array.
\<close>

fun inherited :: "(string \<times> jsval) list \<Rightarrow> (string \<times> jsval) list list \<Rightarrow> string
    \<Rightarrow> (nat \<times> jsval) option" where
  "inherited props [] k = (case map_of props k of Some x \<Rightarrow> Some (0, x) | None \<Rightarrow> None)"
| "inherited props (p # ps) k =
     (case map_of props k of
        Some x \<Rightarrow> Some (0, x)
      | None \<Rightarrow> (case inherited p ps k of Some (n, x) \<Rightarrow> Some (Suc n, x) | None \<Rightarrow> None))"

definition objectPrototypeNames :: "string list" where
  "objectPrototypeNames =
     [''constructor'', ''__defineGetter__'', ''__defineSetter__'', ''hasOwnProperty'',
      ''__lookupGetter__'', ''__lookupSetter__'', ''isPrototypeOf'', ''propertyIsEnumerable'',
      ''toString'', ''valueOf'', ''__proto__'', ''toLocaleString'']"

datatype propValue = Undefined | Value nat jsval | Native

definition readProp :: "(string \<times> jsval) list \<Rightarrow> (string \<times> jsval) list list \<Rightarrow> string
    \<Rightarrow> propValue" where
  "readProp props protos k =
     (case inherited props protos k of
        Some (n, x) \<Rightarrow> Value n x
      | None \<Rightarrow> if k \<in> set objectPrototypeNames then Native else Undefined)"

text \<open>The condition of \<^verbatim>\<open>if (currentObj[key])\<close>: \<^verbatim>\<open>undefined\<close> and the empty string are falsy.\<close>

fun truthy :: "propValue \<Rightarrow> bool" where
  "truthy Undefined = False"
| "truthy (Value n (JStr s)) = (s \<noteq> [])"
| "truthy (Value n x) = True"
| "truthy Native = True"

text \<open>
  The assignment \<^verbatim>\<open>currentObj[key] = x\<close>. It creates or overwrites an own property,
  but for the key \<^verbatim>\<open>__proto__\<close> where no object of the chain has a property of that
  name: there the setter of \<^verbatim>\<open>Object.prototype\<close> runs, which makes an object \<open>x\<close>
  the prototype of \<^verbatim>\<open>currentObj\<close> and ignores a string. (An array is assigned only
  after a falsy read, which the accessor never gives.)
\<close>

definition assign :: "(string \<times> jsval) list \<Rightarrow> (string \<times> jsval) list list \<Rightarrow> string
    \<Rightarrow> jsval \<Rightarrow> jsval" where
  "assign props protos k x =
     (if k = ''__proto__'' \<and> inherited props protos k = None
      then (case x of JObj p ps \<Rightarrow> JObj props (p # ps) | _ \<Rightarrow> JObj props protos)
      else JObj (AList.update k x props) protos)"

text \<open>The way from \<^verbatim>\<open>currentObj\<close> to \<^verbatim>\<open>currentObj[key]\<close> after \<^verbatim>\<open>currentObj[key] = {}\<close>.\<close>

definition assigned :: "(string \<times> jsval) list \<Rightarrow> (string \<times> jsval) list list \<Rightarrow> string
    \<Rightarrow> step" where
  "assigned props protos k =
     (if k = ''__proto__'' \<and> inherited props protos k = None then Proto else Prop k)"

text \<open>\<^verbatim>\<open>path.split('/')\<close>.\<close>

fun splitSlash :: "string \<Rightarrow> string \<Rightarrow> string list" where
  "splitSlash piece [] = [rev piece]"
| "splitSlash piece (c # cs) =
     (if c = CHR ''/'' then rev piece # splitSlash [] cs else splitSlash (c # piece) cs)"

text \<open>\<^verbatim>\<open>key.endsWith('[]')\<close> and \<^verbatim>\<open>key.slice(0, -2)\<close>.\<close>

definition endsWithBrackets :: "string \<Rightarrow> bool" where
  "endsWithBrackets key = suffix ''[]'' key"

definition sliceOffBrackets :: "string \<Rightarrow> string" where
  "sliceOffBrackets key = take (length key - 2) key"

text \<open>
  One call of the callback of \<^verbatim>\<open>pathArr.forEach\<close>. The state is the root object and
  the way to \<^verbatim>\<open>currentObj\<close>; \<open>isLast\<close> is \<^verbatim>\<open>index === pathArr.length - 1\<close>. The value
  is a string, as the documentation of \<^verbatim>\<open>addValueAtPath\<close> and the type \<^verbatim>\<open>Attribute\<close>
  have it. A \<^verbatim>\<open>push\<close> goes to the array where the read found it, \<open>n\<close> prototype links
  from \<^verbatim>\<open>currentObj\<close>; on a truthy value that is not an array it throws a
  \<^verbatim>\<open>TypeError\<close>.
\<close>

definition forEachStep :: "string \<Rightarrow> bool \<Rightarrow> jsval \<times> step list \<Rightarrow> string
    \<Rightarrow> error + (jsval \<times> step list)" where
  "forEachStep v isLast st key =
     (let root = fst st; cur = snd st in
      case valueAt root cur of
        Some (JObj currentObj protos) \<Rightarrow>
          (if isLast then
             (if endsWithBrackets key then
                (let k = sliceOffBrackets key in
                 if truthy (readProp currentObj protos k) then
                   (case readProp currentObj protos k of
                      Value n (JArr xs) \<Rightarrow>
                        Inr (replaceAt root (cur @ replicate n Proto @ [Prop k]) (JArr (xs @ [JStr v])),
                             cur)
                    | _ \<Rightarrow> Inl TypeError)
                 else Inr (replaceAt root cur (assign currentObj protos k (JArr [JStr v])), cur))
              else Inr (replaceAt root cur (assign currentObj protos key (JStr v)), cur))
           else if endsWithBrackets key then
             (let k = sliceOffBrackets key in
              if truthy (readProp currentObj protos k) then
                (case readProp currentObj protos k of
                   Value n (JArr xs) \<Rightarrow>
                     Inr (replaceAt root (cur @ replicate n Proto @ [Prop k])
                            (JArr (xs @ [JObj [] []])),
                          cur @ replicate n Proto @ [Prop k, Elem (length (xs @ [JObj [] []]) - 1)])
                 | _ \<Rightarrow> Inl TypeError)
              else Inr (replaceAt root cur (assign currentObj protos k (JArr [JObj [] []])),
                        cur @ [Prop k, Elem 0]))
           else Inr (replaceAt root cur (assign currentObj protos key (JObj [] [])),
                     cur @ [assigned currentObj protos key]))
      | _ \<Rightarrow> Inl TypeError)"

text \<open>
  The loop of \<^verbatim>\<open>forEach\<close>. A segment that throws ends it; the object then keeps what
  the segments before did to it, and \<open>Inl\<close> carries it with the error.
\<close>

fun forEachKey :: "string \<Rightarrow> nat \<Rightarrow> nat \<Rightarrow> jsval \<times> step list \<Rightarrow> string list
    \<Rightarrow> (error \<times> jsval) + (jsval \<times> step list)" where
  "forEachKey v n index st [] = Inr st"
| "forEachKey v n index st (key # keys) =
     (case forEachStep v (index = n - 1) st key of
        Inl err \<Rightarrow> Inl (err, fst st)
      | Inr st' \<Rightarrow> forEachKey v n (Suc index) st' keys)"

text \<open>
  \<^verbatim>\<open>addValueAtPath(object, path, value)\<close>, for a plain object given by its properties
  and its prototype chain; the result is the object after the mutation, with the
  error where one is thrown.
\<close>

definition addValueAtPath :: "plainObject \<Rightarrow> string \<Rightarrow> string \<Rightarrow> (error \<times> jsval) + jsval" where
  "addValueAtPath object path' v =
     (let pathArr = splitSlash [] path' in
      case forEachKey v (length pathArr) 0 (JObj (fst object) (snd object), []) pathArr of
        Inl failed \<Rightarrow> Inl failed
      | Inr st \<Rightarrow> Inr (fst st))"

section \<open>Joined certificates\<close>

text \<open>
  For the statements about the splitter: \<open>joinLines\<close> is the blob
  \<^verbatim>\<open>c1 + '\n' + c2 + ... + '\n' + cn\<close>, as the repository's test of \<^verbatim>\<open>chainToCerts\<close>
  builds it, and \<open>boundaryFree c\<close> says that no line feed of \<open>c\<close> is followed, within
  \<open>c\<close>, by the begin marker.
\<close>

fun joinLines :: "string list \<Rightarrow> string" where
  "joinLines [] = []"
| "joinLines [c] = c"
| "joinLines (c # c' # cs) = c @ CHR 0x0A # joinLines (c' # cs)"

fun boundaryFree :: "string \<Rightarrow> bool" where
  "boundaryFree [] = True"
| "boundaryFree (c # cs) = (\<not> (c = CHR 0x0A \<and> prefix BEGIN_CERTIFICATE cs) \<and> boundaryFree cs)"

section \<open>Example data\<close>

text \<open>
  A small world to run the definitions in: a leaf for \<^verbatim>\<open>example.org\<close> with an OCSP
  responder, its issuer, a leaf without responder, a leaf for another domain, a
  revoked leaf and a file that is no certificate; three roots, of which the second
  does not parse; a ledger with two contracts for the domain, of which only
  \<^verbatim>\<open>0xA1\<close> carries a signature of the leaf's key.
\<close>

definition leafPem :: string where
  "leafPem = ''-----BEGIN CERTIFICATE-----\<newline>LEAF\<newline>-----END CERTIFICATE-----''"

definition issuerPem :: string where
  "issuerPem = ''-----BEGIN CERTIFICATE-----\<newline>ISSUER\<newline>-----END CERTIFICATE-----''"

definition plainPem :: string where
  "plainPem = ''-----BEGIN CERTIFICATE-----\<newline>NO-OCSP\<newline>-----END CERTIFICATE-----''"

definition otherPem :: string where
  "otherPem = ''-----BEGIN CERTIFICATE-----\<newline>OTHER\<newline>-----END CERTIFICATE-----''"

definition revokedPem :: string where
  "revokedPem = ''-----BEGIN CERTIFICATE-----\<newline>REVOKED\<newline>-----END CERTIFICATE-----''"

definition brokenPem :: string where
  "brokenPem = ''-----BEGIN CERTIFICATE-----\<newline>!\<newline>-----END CERTIFICATE-----''"

definition exampleChain :: string where
  "exampleChain = leafPem @ ''\<newline>'' @ issuerPem"

definition certFor :: "string \<Rightarrow> certificate" where
  "certFor name = \<lparr>subject = Some [\<lparr>attr_name = ''commonName'', attr_value = name\<rparr>]\<rparr>"

definition exampleEnv :: env where
  "exampleEnv =
     \<lparr>rootCertificates = [''ROOT-RSA'', ''ROOT-EC'', ''ROOT-RSA-2''],
      certificateFromPem = (\<lambda>pem.
        if pem = None \<or> pem = Some brokenPem \<or> pem = Some ''ROOT-EC''
        then Inl (External ''Cannot read the certificate'')
        else if pem = Some otherPem then Inr (certFor ''other.org'')
        else Inr (certFor ''example.org'')),
      verifyCertificateChain = (\<lambda>caStore cs. Inr (caStore \<noteq> [])),
      getOCSPURI = (\<lambda>pem. if pem = Some plainPem then None else Some ''http://ocsp.example.org''),
      ocsp_check = (\<lambda>cert issuer.
        if cert = Some revokedPem then (External ''none'', Some ''revoked'')
        else (External ''none'', Some ''good'')),
      getContracts = (\<lambda>d. if d = ''example.org'' then Inr [''0xA1'', ''0xB2''] else Inr []),
      getChainCount = (\<lambda>d. Inr 1),
      getChain = (\<lambda>d i. Inr exampleChain),
      contract_signature = (\<lambda>a. if a = ''0xB2'' then Inr ''forged'' else Inr ''signed''),
      contract_domain = (\<lambda>a. if a = ''0xC3'' then Inr ''other.org'' else Inr ''example.org''),
      getAttributeCount = (\<lambda>a. Inr 1),
      getAttribute = (\<lambda>a i. Inr (''parent/child'', ''value'')),
      contract_expiry = (\<lambda>a. if a = ''0xD4'' then Inr 500 else Inr 2000),
      now = 1000,
      hashContract = (\<lambda>d a attrs ex. d @ a),
      verify = (\<lambda>cert sig h. if cert = None then Inl (External ''no key'') else Inr (sig = ''signed'')),
      x509ToJwk = (\<lambda>cert. if cert = None then Inl (External ''no key'') else Inr ''jwk'')\<rparr>"

text \<open>A document that already holds an array: \<^verbatim>\<open>{ parent: [{ childA: 'valueA' }] }\<close>.\<close>

definition noEndpointEnv :: env where
  "noEndpointEnv = exampleEnv\<lparr>getOCSPURI := (\<lambda>pem. None)\<rparr>"

definition exampleDoc :: plainObject where
  "exampleDoc = ([(''parent'', JArr [JObj [(''childA'', JStr ''valueA'')] []])], [])"

section \<open>Basic facts\<close>

lemma andThen_Inl [simp]: "andThen (Inl e) f = Inl e"
  by (simp add: andThen_def)

lemma andThen_Inr [simp]: "andThen (Inr x) f = f x"
  by (simp add: andThen_def)

lemma ex_verify_A1:
  "verifyContract exampleEnv ''0xA1'' ''did:tls:example.org'' (Some leafPem) = Inr True"
  by (simp add: verifyContract_def exampleEnv_def toNumber_def newDate_def dateBefore_def Let_def)

lemma ex_verify_B2:
  "verifyContract exampleEnv ''0xB2'' ''did:tls:example.org'' (Some leafPem) = Inr False"
  by (simp add: verifyContract_def exampleEnv_def toNumber_def newDate_def dateBefore_def Let_def)

lemma ex_verify_C3:
  "verifyContract exampleEnv ''0xC3'' ''did:tls:example.org'' (Some leafPem) = Inl DomainMismatch"
  by (simp add: verifyContract_def exampleEnv_def toNumber_def newDate_def dateBefore_def Let_def)

lemma ex_verify_D4:
  "verifyContract exampleEnv ''0xD4'' ''did:tls:example.org'' (Some leafPem) = Inl Expired"
  by (simp add: verifyContract_def exampleEnv_def toNumber_def newDate_def dateBefore_def Let_def)

section \<open>Candidate selection\<close>

text \<open>
  The loop over the addresses, in closed form: what it returns depends only on the
  list of the candidates for which \<^verbatim>\<open>verifyContract\<close> returned \<^verbatim>\<open>true\<close>.
\<close>

lemma isValid_iff:
  "(case verifyContract e addr did cert of Inl err \<Rightarrow> False | Inr v \<Rightarrow> v)
     = (verifyContract e addr did cert = Inr True)"
  by (auto split: sum.splits)

lemma contractLoop_Some:
  "contractLoop e did cert n addrs (Some c) =
     (if filter (\<lambda>a. verifyContract e a did cert = Inr True) addrs = [] then Inr (Some c)
      else Inl (AmbiguousCandidate n))"
  by (induction addrs) (simp_all add: isValid_iff Let_def)

lemma contractLoop_None:
  "contractLoop e did cert n addrs None =
     (case filter (\<lambda>a. verifyContract e a did cert = Inr True) addrs of
        [] \<Rightarrow> Inr None
      | [a] \<Rightarrow> Inr (Some a)
      | _ \<Rightarrow> Inl (AmbiguousCandidate n))"
  by (induction addrs) (auto simp: isValid_iff contractLoop_Some Let_def split: list.splits)

text \<open>
  C1. Whatever outcomes \<^verbatim>\<open>processChains\<close> returned: with no outcome marked valid the
  selection fails with \<open>NoValidChain\<close>, with more than one it fails with
  \<open>AmbiguousChain\<close>, and it succeeds only when exactly one outcome is marked valid.
  The last conjunct places the selection in \<^verbatim>\<open>resolveContract\<close>: it is what
  \<^verbatim>\<open>resolveContract\<close> does with the outcomes once the ledger returned addresses and
  chains.
\<close>

theorem selectContract_chain_count:
  "(filter valid verfiedChains = [] \<longrightarrow>
      selectContract e did addresses verfiedChains = Inl NoValidChain) \<and>
   (1 < length (filter valid verfiedChains) \<longrightarrow>
      selectContract e did addresses verfiedChains = Inl AmbiguousChain) \<and>
   (selectContract e did addresses verfiedChains = Inr r \<longrightarrow>
      length (filter valid verfiedChains) = 1) \<and>
   (getContracts e (drop 8 did) = Inr addresses \<and> addresses \<noteq> [] \<and>
    getChains e (drop 8 did) = Inr chs \<and> chs \<noteq> [] \<and>
    processChains e chs (drop 8 did) = Inr verfiedChains \<longrightarrow>
      resolveContract e did = selectContract e did addresses verfiedChains)"
proof -
  have none: "filter valid verfiedChains = [] \<Longrightarrow>
      selectContract e did addresses verfiedChains = Inl NoValidChain"
    by (simp add: selectContract_def)
  have many: "1 < length (filter valid verfiedChains) \<Longrightarrow>
      selectContract e did addresses verfiedChains = Inl AmbiguousChain"
    by (auto simp: selectContract_def Let_def)
  have one: "selectContract e did addresses verfiedChains = Inr r \<Longrightarrow>
      length (filter valid verfiedChains) = 1"
    using none many
    by (cases "length (filter valid verfiedChains)" "1::nat" rule: linorder_cases) auto
  have whole: "getContracts e (drop 8 did) = Inr addresses \<Longrightarrow> addresses \<noteq> [] \<Longrightarrow>
      getChains e (drop 8 did) = Inr chs \<Longrightarrow> chs \<noteq> [] \<Longrightarrow>
      processChains e chs (drop 8 did) = Inr verfiedChains \<Longrightarrow>
      resolveContract e did = selectContract e did addresses verfiedChains"
    by (simp add: resolveContract_def)
  from none many one whole show ?thesis by blast
qed

theorem selectContract_chain_count_witness:
  "selectContract exampleEnv ''did:tls:example.org'' [''0xA1'']
     [\<lparr>chain = [otherPem], valid = False\<rparr>] = Inl NoValidChain \<and>
   selectContract exampleEnv ''did:tls:example.org'' [''0xA1'']
     [\<lparr>chain = [leafPem, issuerPem], valid = True\<rparr>, \<lparr>chain = [otherPem], valid = False\<rparr>,
      \<lparr>chain = [leafPem], valid = True\<rparr>] = Inl AmbiguousChain"
  using selectContract_chain_count [of "[\<lparr>chain = [otherPem], valid = False\<rparr>]"
      exampleEnv "''did:tls:example.org''" "[''0xA1'']"]
    selectContract_chain_count [of "[\<lparr>chain = [leafPem, issuerPem], valid = True\<rparr>,
      \<lparr>chain = [otherPem], valid = False\<rparr>, \<lparr>chain = [leafPem], valid = True\<rparr>]"
      exampleEnv "''did:tls:example.org''" "[''0xA1'']"]
  by simp

text \<open>
  C3. Given the only valid chain \<open>v\<close> and its leaf \<^verbatim>\<open>validChains[0].chain[0]\<close>, let
  \<open>ms\<close> be the candidates for which \<^verbatim>\<open>verifyContract\<close> returns \<^verbatim>\<open>true\<close> against that
  leaf. With no such candidate the selection fails with \<open>NoValidCandidate\<close>, with
  more than one it fails with \<open>AmbiguousCandidate\<close>, and with exactly one it returns
  that candidate together with the key of the leaf (where \<^verbatim>\<open>x509ToJwk\<close>, the key
  format collaborator, returns it).
\<close>

theorem selectContract_candidates:
  assumes "filter valid verfiedChains = [v]"
    and "leaf = nth_opt (chain v) 0"
    and "ms = filter (\<lambda>a. verifyContract e a did leaf = Inr True) addresses"
  shows "(ms = [] \<longrightarrow>
            selectContract e did addresses verfiedChains = Inl (NoValidCandidate (length addresses))) \<and>
         (\<forall>a jwk. ms = [a] \<and> x509ToJwk e leaf = Inr jwk \<longrightarrow>
            selectContract e did addresses verfiedChains = Inr (a, jwk)) \<and>
         (1 < length ms \<longrightarrow>
            selectContract e did addresses verfiedChains = Inl (AmbiguousCandidate (length addresses)))"
  using assms
  by (auto simp: selectContract_def Let_def contractLoop_None split: list.splits)

theorem selectContract_candidates_witness:
  "selectContract exampleEnv ''did:tls:example.org'' [''0xC3'', ''0xA1'', ''0xB2'']
     [\<lparr>chain = [otherPem], valid = False\<rparr>, \<lparr>chain = [leafPem, issuerPem], valid = True\<rparr>]
   = Inr (''0xA1'', ''jwk'')"
proof -
  have h: "filter valid [\<lparr>chain = [otherPem], valid = False\<rparr>, \<lparr>chain = [leafPem, issuerPem], valid = True\<rparr>]
     = [\<lparr>chain = [leafPem, issuerPem], valid = True\<rparr>]"
    by simp
  have j: "x509ToJwk exampleEnv (Some leafPem) = Inr ''jwk''"
    by (simp add: exampleEnv_def)
  show ?thesis
    using selectContract_candidates [OF h refl refl, of exampleEnv "''did:tls:example.org''"
        "[''0xC3'', ''0xA1'', ''0xB2'']"]
    by (simp add: nth_opt_def j ex_verify_A1 ex_verify_B2 ex_verify_C3)
qed

text \<open>
  C7. A candidate whose verification throws is passed over: the loop over any list
  of addresses that holds such a candidate ends as the loop over the list without
  it, from any state of \<^verbatim>\<open>validContract\<close>. The rejections for a domain that differs
  from the DID's and for an expiry before the current time are such exceptions.
\<close>

theorem contractLoop_exception_skipped:
  "(verifyContract e a did cert = Inl err \<longrightarrow>
      contractLoop e did cert n (pre @ a # post) vc = contractLoop e did cert n (pre @ post) vc) \<and>
   (contract_signature e a = Inr sg \<and> contract_domain e a = Inr d \<and> d \<noteq> drop 8 did \<longrightarrow>
      verifyContract e a did cert = Inl DomainMismatch) \<and>
   (contract_signature e a = Inr sg \<and> contract_domain e a = Inr (drop 8 did) \<and>
    getAttributeCount e a = Inr cnt \<and> toNumber cnt = Inr k \<and>
    readAttributes e a [0..<nat k] = Inr attrs \<and>
    contract_expiry e a = Inr ex \<and> toNumber ex = Inr ms \<and> dateBefore (newDate ms) (now e) \<longrightarrow>
      verifyContract e a did cert = Inl Expired)"
proof -
  have skip: "verifyContract e a did cert = Inl err \<Longrightarrow>
      contractLoop e did cert n (pre @ a # post) vc = contractLoop e did cert n (pre @ post) vc"
    by (induction pre arbitrary: vc) (simp_all add: Let_def)
  have mismatch: "contract_signature e a = Inr sg \<Longrightarrow> contract_domain e a = Inr d \<Longrightarrow>
      d \<noteq> drop 8 did \<Longrightarrow> verifyContract e a did cert = Inl DomainMismatch"
    by (auto simp: verifyContract_def Let_def)
  have expired: "contract_signature e a = Inr sg \<Longrightarrow> contract_domain e a = Inr (drop 8 did) \<Longrightarrow>
      getAttributeCount e a = Inr cnt \<Longrightarrow> toNumber cnt = Inr k \<Longrightarrow>
      readAttributes e a [0..<nat k] = Inr attrs \<Longrightarrow>
      contract_expiry e a = Inr ex \<Longrightarrow> toNumber ex = Inr ms \<Longrightarrow> dateBefore (newDate ms) (now e) \<Longrightarrow>
      verifyContract e a did cert = Inl Expired"
    by (simp add: verifyContract_def Let_def)
  from skip mismatch expired show ?thesis by blast
qed

theorem contractLoop_exception_skipped_witness:
  "contractLoop exampleEnv ''did:tls:example.org'' (Some leafPem) 3 [''0xD4'', ''0xC3'', ''0xA1''] None
     = contractLoop exampleEnv ''did:tls:example.org'' (Some leafPem) 3 [''0xD4'', ''0xA1''] None \<and>
   contractLoop exampleEnv ''did:tls:example.org'' (Some leafPem) 3 [''0xD4'', ''0xC3'', ''0xA1''] None
     = Inr (Some ''0xA1'')"
  using contractLoop_exception_skipped [of exampleEnv "''0xC3''" "''did:tls:example.org''"
      "Some leafPem" DomainMismatch 3 "[''0xD4'']" "[''0xA1'']" None]
  by (simp add: ex_verify_A1 ex_verify_C3 ex_verify_D4)

section \<open>The trust anchor store\<close>

lemma mapRoots_enumerate:
  "mapRoots e idx roots (pkis, uns) =
     (pkis @ map (\<lambda>r. case certificateFromPem e (Some r) of Inl err \<Rightarrow> None | Inr c \<Rightarrow> Some c) roots,
      uns @ map fst (filter (\<lambda>p. isl (certificateFromPem e (Some (snd p)))) (enumerate idx roots)))"
  by (induction roots arbitrary: idx pkis uns) (auto split: sum.splits)

lemma enumerate_filter_nth:
  "map fst (filter (\<lambda>p. P (snd p)) (enumerate n xs)) = filter (\<lambda>i. P (xs ! (i - n))) [n..<n + length xs]"
proof (induction xs arbitrary: n)
  case Nil
  then show ?case by simp
next
  case (Cons x xs)
  have tl: "filter (\<lambda>i. P ((x # xs) ! (i - n))) [Suc n..<Suc n + length xs]
      = filter (\<lambda>i. P (xs ! (i - Suc n))) [Suc n..<Suc n + length xs]"
    by (rule filter_cong) (auto simp: nth_Cons' Suc_diff_le)
  have up: "[n..<n + length (x # xs)] = n # [Suc n..<Suc n + length xs]"
    using upt_conv_Cons [of n "n + length (x # xs)"] by simp
  have "map fst (filter (\<lambda>p. P (snd p)) (enumerate n (x # xs)))
      = (if P x then [n] else []) @ map fst (filter (\<lambda>p. P (snd p)) (enumerate (Suc n) xs))"
    by simp
  also have "\<dots> = (if P x then [n] else []) @ filter (\<lambda>i. P (xs ! (i - Suc n))) [Suc n..<Suc n + length xs]"
    by (simp only: Cons.IH)
  also have "\<dots> = filter (\<lambda>i. P ((x # xs) ! (i - n))) [n..<n + length (x # xs)]"
    unfolding up using tl by (simp del: upt_Suc)
  finally show ?case .
qed

lemma defined_pkis:
  "map the (filter (\<lambda>p. p \<noteq> None) (map (\<lambda>r. case f r of Inl err \<Rightarrow> None | Inr c \<Rightarrow> Some c) roots))
   = map projr (filter (\<lambda>r. \<not> isl r) (map f roots))"
  by (induction roots) (auto split: sum.splits)

text \<open>
  C5. Building the store is total: for every list of roots it returns a store and a
  list of skipped indices, and no parse failure is an error of the build. The
  skipped indices are exactly the indices of the roots that do not parse, in
  increasing order, and the store holds exactly the certificates of the roots that
  parse, in the order of the roots. \<^verbatim>\<open>processChains\<close> goes on to validate the chains
  against that store.
\<close>

theorem caStoreFromRoots_skips:
  "caStoreFromRoots e roots =
     (map projr (filter (\<lambda>r. \<not> isl r) (map (\<lambda>pem. certificateFromPem e (Some pem)) roots)),
      filter (\<lambda>i. isl (certificateFromPem e (Some (roots ! i)))) [0..<length roots]) \<and>
   processChains e chs domain =
     verifyChains e domain (fst (caStoreFromRoots e (rootCertificates e))) (arrayFromSet chs) []"
proof -
  have h: "map fst (filter (\<lambda>p. isl (certificateFromPem e (Some (snd p)))) (enumerate 0 roots))
      = filter (\<lambda>i. isl (certificateFromPem e (Some (roots ! i)))) [0..<length roots]"
    using enumerate_filter_nth [of "\<lambda>pem. isl (certificateFromPem e (Some pem))" 0 roots] by simp
  have store: "caStoreFromRoots e roots =
     (map projr (filter (\<lambda>r. \<not> isl r) (map (\<lambda>pem. certificateFromPem e (Some pem)) roots)),
      filter (\<lambda>i. isl (certificateFromPem e (Some (roots ! i)))) [0..<length roots])"
    by (simp only: caStoreFromRoots_def mapRoots_enumerate Let_def prod.case append_Nil defined_pkis h)
  have "processChains e chs domain =
     verifyChains e domain (fst (caStoreFromRoots e (rootCertificates e))) (arrayFromSet chs) []"
    by (simp add: processChains_def Let_def split: prod.splits)
  with store show ?thesis by blast
qed

theorem caStoreFromRoots_skips_witness:
  "caStoreFromRoots exampleEnv [''ROOT-RSA'', ''ROOT-EC'', ''ROOT-RSA-2'']
     = ([certFor ''example.org'', certFor ''example.org''], [1])"
  using caStoreFromRoots_skips [of exampleEnv "[''ROOT-RSA'', ''ROOT-EC'', ''ROOT-RSA-2'']"]
  by (simp add: exampleEnv_def brokenPem_def otherPem_def)

section \<open>Chain validation\<close>

lemma ex_store:
  "fst (caStoreFromRoots exampleEnv (rootCertificates exampleEnv))
     = [certFor ''example.org'', certFor ''example.org'']"
  by (simp add: caStoreFromRoots_def exampleEnv_def brokenPem_def otherPem_def Let_def)

lemma ex_chainToCerts: "chainToCerts exampleChain = [leafPem, issuerPem]"
  by (simp add: chainToCerts_def exampleChain_def leafPem_def issuerPem_def BEGIN_CERTIFICATE_def)

lemma ex_chainToCerts_broken: "chainToCerts brokenPem = [brokenPem]"
  by (simp add: chainToCerts_def brokenPem_def BEGIN_CERTIFICATE_def)

lemma ex_chainToCerts_other: "chainToCerts otherPem = [otherPem]"
  by (simp add: chainToCerts_def otherPem_def BEGIN_CERTIFICATE_def)

lemma ex_verifyChain_good:
  "verifyChain exampleEnv [leafPem, issuerPem] ''example.org''
     [certFor ''example.org'', certFor ''example.org'']
   = Inr \<lparr>chain = [leafPem, issuerPem], valid = True\<rparr>"
  by (simp add: verifyChain_def verifyCertSubject_def firstSubjectValue_def checkForOCSP_def
      checkOCSP_def nth_opt_def exampleEnv_def certFor_def leafPem_def issuerPem_def brokenPem_def
      otherPem_def plainPem_def revokedPem_def)

lemma ex_verifyChain_other:
  "verifyChain exampleEnv [otherPem] ''example.org''
     [certFor ''example.org'', certFor ''example.org'']
   = Inr \<lparr>chain = [otherPem], valid = False\<rparr>"
  by (simp add: verifyChain_def verifyCertSubject_def firstSubjectValue_def checkForOCSP_def
      checkOCSP_def nth_opt_def exampleEnv_def certFor_def leafPem_def issuerPem_def brokenPem_def
      otherPem_def plainPem_def revokedPem_def)

lemma ex_verifyChain_broken:
  "verifyChain exampleEnv [brokenPem] ''example.org''
     [certFor ''example.org'', certFor ''example.org'']
   = Inl (External ''Cannot read the certificate'')"
  by (simp add: verifyChain_def exampleEnv_def)

lemma verifyChain_chain: "verifyChain e pems d st = Inr out \<Longrightarrow> chain out = pems"
  by (auto simp: verifyChain_def andThen_def split: sum.splits if_splits)

text \<open>
  C6. The subject check of a leaf that parses is the equality of the domain with the
  value of the first attribute of the subject of the leaf; it fails where there is
  no subject or no attribute. A chain whose leaf fails the check never gets an
  outcome marked valid. Where the certificates parse and the path validation returns
  \<^verbatim>\<open>true\<close>, what \<^verbatim>\<open>verifyChain\<close> does with such a chain is decided by \<^verbatim>\<open>checkForOCSP\<close>:
  the chain marked invalid where its promise resolves, and the rejection where it
  rejects. It rejects for every leaf without revocation endpoint, so that such a
  chain gets no outcome but the thrown \<^verbatim>\<open>false\<close>.
\<close>

theorem verifyChain_subject:
  "(certificateFromPem e (Some leaf) = Inr c \<longrightarrow>
      verifyCertSubject e (Some leaf) domain =
        Inr (case subject c of Some (a # others) \<Rightarrow> attr_value a = domain | _ \<Rightarrow> False)) \<and>
   (certificateFromPem e (Some leaf) = Inr c \<and>
    (case subject c of Some (a # others) \<Rightarrow> attr_value a \<noteq> domain | _ \<Rightarrow> True) \<and>
    verifyChain e (leaf # rest) domain caStore = Inr out \<longrightarrow> \<not> valid out) \<and>
   (certificateFromPem e (Some leaf) = Inr c \<and>
    (case subject c of Some (a # others) \<Rightarrow> attr_value a \<noteq> domain | _ \<Rightarrow> True) \<and>
    certificatesFromPems e (leaf # rest) = Inr cs \<and> verifyCertificateChain e caStore cs = Inr True \<longrightarrow>
      verifyChain e (leaf # rest) domain caStore =
        (case checkForOCSP e (Some leaf) of
           Inl err \<Rightarrow> Inl err
         | Inr hasOCSP \<Rightarrow> Inr \<lparr>chain = leaf # rest, valid = False\<rparr>)) \<and>
   (certificateFromPem e (Some leaf) = Inr c \<and>
    (case subject c of Some (a # others) \<Rightarrow> attr_value a \<noteq> domain | _ \<Rightarrow> True) \<and>
    certificatesFromPems e (leaf # rest) = Inr cs \<and> verifyCertificateChain e caStore cs = Inr True \<and>
    getOCSPURI e (Some leaf) = None \<longrightarrow>
      verifyChain e (leaf # rest) domain caStore = Inl RejectedFalse)"
proof -
  let ?differs = "case subject c of Some (a # others) \<Rightarrow> attr_value a \<noteq> domain | _ \<Rightarrow> True"
  have first: "(firstSubjectValue c = Some domain)
      = (case subject c of Some (a # others) \<Rightarrow> attr_value a = domain | _ \<Rightarrow> False)"
    by (simp add: firstSubjectValue_def split: option.splits list.splits)
  have differs: "?differs \<Longrightarrow> firstSubjectValue c \<noteq> Some domain"
    by (auto simp: firstSubjectValue_def split: option.splits list.splits)
  have subj: "certificateFromPem e (Some leaf) = Inr c \<Longrightarrow>
      verifyCertSubject e (Some leaf) domain =
        Inr (case subject c of Some (a # others) \<Rightarrow> attr_value a = domain | _ \<Rightarrow> False)"
    by (simp add: verifyCertSubject_def first)
  have never: "certificateFromPem e (Some leaf) = Inr c \<Longrightarrow> ?differs \<Longrightarrow>
      verifyChain e (leaf # rest) domain caStore = Inr out \<Longrightarrow> \<not> valid out"
    using differs
    by (auto simp: verifyChain_def andThen_def nth_opt_def verifyCertSubject_def
        split: sum.splits if_splits)
  have decided: "certificateFromPem e (Some leaf) = Inr c \<Longrightarrow> ?differs \<Longrightarrow>
      certificatesFromPems e (leaf # rest) = Inr cs \<Longrightarrow> verifyCertificateChain e caStore cs = Inr True \<Longrightarrow>
      verifyChain e (leaf # rest) domain caStore =
        (case checkForOCSP e (Some leaf) of
           Inl err \<Rightarrow> Inl err
         | Inr hasOCSP \<Rightarrow> Inr \<lparr>chain = leaf # rest, valid = False\<rparr>)"
    using differs
    by (simp add: verifyChain_def nth_opt_def verifyCertSubject_def split: sum.splits)
  have thrown: "certificateFromPem e (Some leaf) = Inr c \<Longrightarrow> ?differs \<Longrightarrow>
      certificatesFromPems e (leaf # rest) = Inr cs \<Longrightarrow> verifyCertificateChain e caStore cs = Inr True \<Longrightarrow>
      getOCSPURI e (Some leaf) = None \<Longrightarrow>
      verifyChain e (leaf # rest) domain caStore = Inl RejectedFalse"
    using decided by (simp add: checkForOCSP_def)
  from subj never decided thrown show ?thesis by blast
qed

theorem verifyChain_subject_witness:
  "verifyCertSubject exampleEnv (Some otherPem) ''example.org'' = Inr False \<and>
   verifyChain noEndpointEnv [otherPem] ''example.org'' [certFor ''example.org'']
     = Inl RejectedFalse"
proof -
  have p: "certificateFromPem exampleEnv (Some otherPem) = Inr (certFor ''other.org'')"
    by (simp add: exampleEnv_def otherPem_def brokenPem_def)
  have p': "certificateFromPem noEndpointEnv (Some otherPem) = Inr (certFor ''other.org'')"
    by (simp add: noEndpointEnv_def exampleEnv_def otherPem_def brokenPem_def)
  have s: "subject (certFor ''other.org'') = Some [\<lparr>attr_name = ''commonName'', attr_value = ''other.org''\<rparr>]"
    by (simp add: certFor_def)
  have ps: "certificatesFromPems noEndpointEnv [otherPem] = Inr [certFor ''other.org'']"
    by (simp add: p')
  have v: "verifyCertificateChain noEndpointEnv [certFor ''example.org''] [certFor ''other.org''] = Inr True"
    by (simp add: noEndpointEnv_def exampleEnv_def)
  have u: "getOCSPURI noEndpointEnv (Some otherPem) = None"
    by (simp add: noEndpointEnv_def)
  have d: "case subject (certFor ''other.org'') of
             Some (a # others) \<Rightarrow> attr_value a \<noteq> ''example.org'' | _ \<Rightarrow> True"
    by (simp add: s)
  have a: "verifyCertSubject exampleEnv (Some otherPem) ''example.org'' = Inr False"
    using verifyChain_subject [where e = exampleEnv and leaf = otherPem and c = "certFor ''other.org''"
        and domain = "''example.org''" and rest = "[]" and caStore = "[]" and cs = "[]"
        and out = "\<lparr>chain = [], valid = False\<rparr>"] p s
    by simp
  have b: "verifyChain noEndpointEnv [otherPem] ''example.org'' [certFor ''example.org'']
      = Inl RejectedFalse"
    using verifyChain_subject [where e = noEndpointEnv and leaf = otherPem and c = "certFor ''other.org''"
        and domain = "''example.org''" and rest = "[]" and caStore = "[certFor ''example.org'']"
        and cs = "[certFor ''other.org'']" and out = "\<lparr>chain = [], valid = False\<rparr>"] p' d ps v u
    by blast
  from a b show ?thesis by blast
qed

text \<open>
  C2. A chain whose leaf advertises no revocation endpoint never gets an outcome:
  \<^verbatim>\<open>checkForOCSP\<close> rejects its promise with \<^verbatim>\<open>false\<close>, and where everything before it
  went through, that rejection is what \<^verbatim>\<open>verifyChain\<close> throws. Where the endpoint
  is advertised, an outcome marked valid has a status response of type \<^verbatim>\<open>good\<close>:
  a response of any other type marks the chain invalid, and a query without
  response throws its error.
\<close>

theorem verifyChain_without_endpoint:
  "(getOCSPURI e (nth_opt pemArray 0) = None \<longrightarrow> verifyChain e pemArray domain caStore \<noteq> Inr out) \<and>
   (certificatesFromPems e pemArray = Inr cs \<and> verifyCertificateChain e caStore cs = Inr pathOk \<and>
    (pathOk \<longrightarrow> verifyCertSubject e (nth_opt pemArray 0) domain = Inr subjectOk) \<and>
    getOCSPURI e (nth_opt pemArray 0) = None \<longrightarrow>
      verifyChain e pemArray domain caStore = Inl RejectedFalse) \<and>
   (checkForOCSP e (nth_opt pemArray 0) = Inr True \<and>
    verifyChain e pemArray domain caStore = Inr out \<and> valid out \<longrightarrow>
      snd (ocsp_check e (nth_opt pemArray 0) (nth_opt pemArray 1)) = Some ''good'') \<and>
   (certificatesFromPems e pemArray = Inr cs \<and> verifyCertificateChain e caStore cs = Inr True \<and>
    verifyCertSubject e (nth_opt pemArray 0) domain = Inr True \<and>
    checkForOCSP e (nth_opt pemArray 0) = Inr True \<longrightarrow>
      verifyChain e pemArray domain caStore =
        (case ocsp_check e (nth_opt pemArray 0) (nth_opt pemArray 1) of
           (err, None) \<Rightarrow> Inl err
         | (err, Some ty) \<Rightarrow> Inr \<lparr>chain = pemArray, valid = (ty = ''good'')\<rparr>))"
proof -
  have none: "getOCSPURI e (nth_opt pemArray 0) = None \<Longrightarrow>
      verifyChain e pemArray domain caStore \<noteq> Inr out"
    by (auto simp: verifyChain_def andThen_def checkForOCSP_def split: sum.splits if_splits)
  have rej: "certificatesFromPems e pemArray = Inr cs \<Longrightarrow>
      verifyCertificateChain e caStore cs = Inr pathOk \<Longrightarrow>
      (pathOk \<longrightarrow> verifyCertSubject e (nth_opt pemArray 0) domain = Inr subjectOk) \<Longrightarrow>
      getOCSPURI e (nth_opt pemArray 0) = None \<Longrightarrow>
      verifyChain e pemArray domain caStore = Inl RejectedFalse"
    by (cases pathOk) (simp_all add: verifyChain_def checkForOCSP_def)
  have good: "checkForOCSP e (nth_opt pemArray 0) = Inr True \<Longrightarrow>
      verifyChain e pemArray domain caStore = Inr out \<Longrightarrow> valid out \<Longrightarrow>
      snd (ocsp_check e (nth_opt pemArray 0) (nth_opt pemArray 1)) = Some ''good''"
    by (auto simp: verifyChain_def andThen_def checkOCSP_def
        split: sum.splits if_splits prod.splits option.splits)
  have query: "certificatesFromPems e pemArray = Inr cs \<Longrightarrow>
      verifyCertificateChain e caStore cs = Inr True \<Longrightarrow>
      verifyCertSubject e (nth_opt pemArray 0) domain = Inr True \<Longrightarrow>
      checkForOCSP e (nth_opt pemArray 0) = Inr True \<Longrightarrow>
      verifyChain e pemArray domain caStore =
        (case ocsp_check e (nth_opt pemArray 0) (nth_opt pemArray 1) of
           (err, None) \<Rightarrow> Inl err
         | (err, Some ty) \<Rightarrow> Inr \<lparr>chain = pemArray, valid = (ty = ''good'')\<rparr>)"
    by (simp add: verifyChain_def checkOCSP_def split: prod.splits option.splits)
  from none rej good query show ?thesis by blast
qed

theorem verifyChain_without_endpoint_witness:
  "verifyChain exampleEnv [plainPem, issuerPem] ''example.org'' [certFor ''example.org'']
     = Inl RejectedFalse"
proof -
  have ps: "certificatesFromPems exampleEnv [plainPem, issuerPem]
      = Inr [certFor ''example.org'', certFor ''example.org'']"
    by (simp add: exampleEnv_def plainPem_def issuerPem_def otherPem_def brokenPem_def)
  have v: "verifyCertificateChain exampleEnv [certFor ''example.org'']
      [certFor ''example.org'', certFor ''example.org''] = Inr True"
    by (simp add: exampleEnv_def)
  have s: "verifyCertSubject exampleEnv (nth_opt [plainPem, issuerPem] 0) ''example.org'' = Inr True"
    by (simp add: verifyCertSubject_def firstSubjectValue_def certFor_def nth_opt_def exampleEnv_def
        plainPem_def otherPem_def brokenPem_def)
  have u: "getOCSPURI exampleEnv (nth_opt [plainPem, issuerPem] 0) = None"
    by (simp add: nth_opt_def exampleEnv_def)
  show ?thesis
    using verifyChain_without_endpoint [where e = exampleEnv and pemArray = "[plainPem, issuerPem]"
        and domain = "''example.org''" and caStore = "[certFor ''example.org'']"
        and cs = "[certFor ''example.org'', certFor ''example.org'']" and pathOk = True
        and subjectOk = True] ps v s u
    by simp
qed

section \<open>processChains\<close>

lemma processChains_unfold:
  "processChains e chs d =
     verifyChains e d (fst (caStoreFromRoots e (rootCertificates e))) (arrayFromSet chs) []"
  by (simp add: processChains_def Let_def split: prod.splits)

lemma remdups_mid:
  "x \<in> set bs \<Longrightarrow> remdups (as @ x # bs) = remdups (as @ bs)"
  by (induction as) auto

lemma setAdd_remdups:
  "distinct seen \<Longrightarrow> setAdd seen xs = rev (remdups (rev (seen @ xs)))"
proof (induction xs arbitrary: seen)
  case Nil
  then show ?case by (simp add: distinct_remdups_id)
next
  case (Cons x xs)
  show ?case
  proof (cases "x \<in> set seen")
    case True
    then have "remdups (rev xs @ x # rev seen) = remdups (rev xs @ rev seen)"
      by (simp add: remdups_mid)
    with True Cons show ?thesis by simp
  next
    case False
    with Cons.prems have "distinct (seen @ [x])" by simp
    from Cons.IH [OF this] False show ?thesis by simp
  qed
qed

lemma arrayFromSet_first: "arrayFromSet xs = rev (remdups (rev xs))"
  using setAdd_remdups [of "[]" xs] by (simp add: arrayFromSet_def)

lemma verifyChains_Inr_iff:
  "(verifyChains e d st cs acc = Inr outs) =
   (\<exists>new. outs = acc @ new \<and>
      list_all2 (\<lambda>c out. verifyChain e (chainToCerts c) d st = Inr out) cs new)"
proof (induction cs arbitrary: acc)
  case Nil
  then show ?case by auto
next
  case (Cons c cs)
  show ?case
  proof (cases "verifyChain e (chainToCerts c) d st")
    case (Inl err)
    then show ?thesis by (auto simp: list_all2_Cons1)
  next
    case (Inr out)
    then show ?thesis by (auto simp: Cons.IH list_all2_Cons1)
  qed
qed

lemma verifyChains_Inl:
  "c \<in> set cs \<Longrightarrow> verifyChain e (chainToCerts c) d st = Inl err \<Longrightarrow>
   \<exists>err'. verifyChains e d st cs acc = Inl err'"
proof (induction cs arbitrary: acc)
  case Nil
  then show ?case by simp
next
  case (Cons c' cs)
  then show ?case
    by (cases "verifyChain e (chainToCerts c') d st") auto
qed

lemma ex_dedup: "arrayFromSet [exampleChain, brokenPem] = [exampleChain, brokenPem]"
  by (simp add: arrayFromSet_def exampleChain_def leafPem_def brokenPem_def)

lemma ex_dedup3: "arrayFromSet [exampleChain, otherPem, exampleChain] = [exampleChain, otherPem]"
  by (simp add: arrayFromSet_def exampleChain_def leafPem_def otherPem_def)

text \<open>
  C4, as the claim states it, fails: the first chain validates on its own to an
  outcome marked valid, the second chain holds a file that is no certificate, and
  \<^verbatim>\<open>processChains\<close> on the two returns no outcome at all but throws the parse error.
\<close>

theorem processChains_independent_counterexample:
  "processChains exampleEnv [exampleChain, brokenPem] ''example.org''
     = Inl (External ''Cannot read the certificate'') \<and>
   verifyChain exampleEnv (chainToCerts exampleChain) ''example.org''
     (fst (caStoreFromRoots exampleEnv (rootCertificates exampleEnv)))
     = Inr \<lparr>chain = [leafPem, issuerPem], valid = True\<rparr>"
  by (simp add: processChains_unfold ex_dedup ex_chainToCerts ex_chainToCerts_broken ex_store
      ex_verifyChain_good ex_verifyChain_broken)

text \<open>
  C4, amended. \<^verbatim>\<open>processChains\<close> returns outcomes exactly when the validation of every
  chain of the deduplicated input returns, and then the outcomes are those of the
  chains validated one by one: one per deduplicated chain, in the order of the first
  occurrences in the input, each carrying the certificates of its chain. When the
  validation of any chain of the input throws, \<^verbatim>\<open>processChains\<close> throws and returns
  no outcome.
\<close>

theorem processChains_outcomes:
  "((processChains e chs domain = Inr outs) =
      list_all2 (\<lambda>c out. verifyChain e (chainToCerts c) domain
                   (fst (caStoreFromRoots e (rootCertificates e))) = Inr out) (arrayFromSet chs) outs) \<and>
   (processChains e chs domain = Inr outs \<longrightarrow>
      length outs = length (arrayFromSet chs) \<and>
      map chain outs = map chainToCerts (arrayFromSet chs)) \<and>
   arrayFromSet chs = rev (remdups (rev chs)) \<and>
   (c \<in> set chs \<and>
    verifyChain e (chainToCerts c) domain (fst (caStoreFromRoots e (rootCertificates e))) = Inl err \<longrightarrow>
      (\<exists>err'. processChains e chs domain = Inl err'))"
proof -
  let ?st = "fst (caStoreFromRoots e (rootCertificates e))"
  let ?ok = "\<lambda>c out. verifyChain e (chainToCerts c) domain ?st = Inr out"
  have iff: "(processChains e chs domain = Inr outs) = list_all2 ?ok (arrayFromSet chs) outs"
    by (simp add: processChains_unfold verifyChains_Inr_iff)
  have shape: "list_all2 ?ok cs os \<Longrightarrow> length os = length cs \<and> map chain os = map chainToCerts cs"
    for cs os
    by (induction cs os rule: list_all2_induct) (auto dest: verifyChain_chain)
  have mem: "set (arrayFromSet chs) = set chs"
    by (simp add: arrayFromSet_first)
  have fails: "c \<in> set chs \<Longrightarrow> verifyChain e (chainToCerts c) domain ?st = Inl err \<Longrightarrow>
      \<exists>err'. processChains e chs domain = Inl err'"
    using verifyChains_Inl [of c "arrayFromSet chs" e domain ?st err "[]"]
    by (simp add: processChains_unfold mem)
  from iff shape [of "arrayFromSet chs" outs] fails arrayFromSet_first [of chs]
  show ?thesis by blast
qed

theorem processChains_outcomes_witness:
  "processChains exampleEnv [exampleChain, otherPem, exampleChain] ''example.org''
     = Inr [\<lparr>chain = [leafPem, issuerPem], valid = True\<rparr>, \<lparr>chain = [otherPem], valid = False\<rparr>]"
  using processChains_outcomes [of exampleEnv "[exampleChain, otherPem, exampleChain]" "''example.org''"
      "[\<lparr>chain = [leafPem, issuerPem], valid = True\<rparr>, \<lparr>chain = [otherPem], valid = False\<rparr>]"]
  by (simp add: ex_dedup3 ex_store ex_chainToCerts ex_chainToCerts_other ex_verifyChain_good
      ex_verifyChain_other)

section \<open>The domain of a DID\<close>






section \<open>The chain splitter\<close>

lemma marker_no_lf: "CHR 0x0A \<notin> set BEGIN_CERTIFICATE"
  by (simp add: BEGIN_CERTIFICATE_def)

text \<open>The marker holds no line feed, so it cannot start in one certificate and end in the next.\<close>

lemma marker_across:
  assumes "prefix BEGIN_CERTIFICATE (c @ CHR 0x0A # rest)"
  shows "prefix BEGIN_CERTIFICATE c"
proof -
  from assms consider "prefix BEGIN_CERTIFICATE c"
    | us where "BEGIN_CERTIFICATE = c @ us" "prefix us (CHR 0x0A # rest)"
    by (auto simp: prefix_append)
  then show ?thesis
  proof cases
    case 1
    then show ?thesis .
  next
    case 2
    show ?thesis
    proof (cases us)
      case Nil
      with 2 show ?thesis by simp
    next
      case (Cons u us')
      with 2 have eq: "BEGIN_CERTIFICATE = c @ CHR 0x0A # us'" by simp
      have "CHR 0x0A \<in> set (c @ CHR 0x0A # us')" by simp
      with eq have "CHR 0x0A \<in> set BEGIN_CERTIFICATE" by (simp only:)
      with marker_no_lf show ?thesis by simp
    qed
  qed
qed

lemma splitAcc_piece:
  "boundaryFree c \<Longrightarrow> prefix BEGIN_CERTIFICATE rest \<Longrightarrow>
   splitAcc acc (c @ CHR 0x0A # rest) = (rev acc @ c) # splitAcc [] rest"
proof (induction c arbitrary: acc)
  case Nil
  then show ?case by simp
next
  case (Cons x c)
  from Cons.prems have nb: "\<not> (x = CHR 0x0A \<and> prefix BEGIN_CERTIFICATE c)" and bf: "boundaryFree c"
    by simp_all
  from nb have "\<not> (x = CHR 0x0A \<and> prefix BEGIN_CERTIFICATE (c @ CHR 0x0A # rest))"
    using marker_across by blast
  then have "splitAcc acc ((x # c) @ CHR 0x0A # rest) = splitAcc (x # acc) (c @ CHR 0x0A # rest)"
    by auto
  also have "\<dots> = (rev (x # acc) @ c) # splitAcc [] rest"
    by (rule Cons.IH [OF bf Cons.prems(2)])
  finally show ?case by simp
qed

lemma splitAcc_last: "boundaryFree c \<Longrightarrow> splitAcc acc c = [rev acc @ c]"
  by (induction c arbitrary: acc) auto

lemma joinLines_prefix:
  "cs \<noteq> [] \<Longrightarrow> prefix BEGIN_CERTIFICATE (hd cs) \<Longrightarrow> prefix BEGIN_CERTIFICATE (joinLines cs)"
  by (induction cs rule: joinLines.induct) (auto intro: prefix_prefix)

lemma chainToCerts_joined:
  assumes "cs \<noteq> []"
    and "\<forall>c \<in> set cs. boundaryFree c"
    and "\<forall>c \<in> set (tl cs). prefix BEGIN_CERTIFICATE c"
  shows "chainToCerts (joinLines cs) = cs"
  using assms
proof (induction cs rule: joinLines.induct)
  case 1
  then show ?case by simp
next
  case (2 c)
  then show ?case by (simp add: chainToCerts_def splitAcc_last)
next
  case (3 c c' cs)
  have p: "prefix BEGIN_CERTIFICATE (joinLines (c' # cs))"
    using 3 by (intro joinLines_prefix) auto
  have "chainToCerts (joinLines (c' # cs)) = c' # cs"
    using 3 by auto
  then show ?case
    using 3 p by (simp add: chainToCerts_def splitAcc_piece)
qed

lemma splitAcc_nonempty: "splitAcc acc s \<noteq> []"
  by (induction s arbitrary: acc) auto

lemma joinLines_Cons: "ys \<noteq> [] \<Longrightarrow> joinLines (x # ys) = x @ CHR 0x0A # joinLines ys"
  by (cases ys) auto

lemma joinLines_splitAcc: "joinLines (splitAcc acc s) = rev acc @ s"
  by (induction s arbitrary: acc) (auto simp: joinLines_Cons splitAcc_nonempty)

text \<open>
  C9, as the claim states it, fails. Two certificates that end in a line feed, as
  PEM files do, concatenated: the first piece has lost its line feed. The same two
  without the final line feed, concatenated: the blob is not split at all.
\<close>

theorem chainToCerts_concat_counterexample:
  "chainToCerts (concat [leafPem @ ''\<newline>'', issuerPem @ ''\<newline>''])
     = [leafPem, issuerPem @ ''\<newline>''] \<and>
   chainToCerts (concat [leafPem @ ''\<newline>'', issuerPem @ ''\<newline>''])
     \<noteq> [leafPem @ ''\<newline>'', issuerPem @ ''\<newline>''] \<and>
   chainToCerts (concat [leafPem, issuerPem]) = [leafPem @ issuerPem] \<and>
   chainToCerts (concat [leafPem, issuerPem]) \<noteq> [leafPem, issuerPem]"
  by (simp add: chainToCerts_def leafPem_def issuerPem_def BEGIN_CERTIFICATE_def)

text \<open>
  C9, amended. For certificates joined by single line feeds, none of which holds a
  line feed followed by the begin marker and each of which but the first begins with
  the marker, the splitter returns exactly the list of the certificates, in order.
  It validates nothing: for every string at all, the pieces joined by line feeds
  are the string again, so the split drops the separating line feeds and nothing
  else.
\<close>

theorem chainToCerts_joinLines:
  "(cs \<noteq> [] \<and> (\<forall>c \<in> set cs. boundaryFree c) \<and>
    (\<forall>c \<in> set (tl cs). prefix BEGIN_CERTIFICATE c) \<longrightarrow>
      chainToCerts (joinLines cs) = cs) \<and>
   joinLines (chainToCerts blob) = blob"
  using chainToCerts_joined [of cs] by (simp add: chainToCerts_def joinLines_splitAcc)

theorem chainToCerts_joinLines_witness:
  "chainToCerts (joinLines [leafPem @ ''\<newline>'', issuerPem, otherPem])
     = [leafPem @ ''\<newline>'', issuerPem, otherPem]"
proof -
  have b: "\<forall>c \<in> set [leafPem @ ''\<newline>'', issuerPem, otherPem]. boundaryFree c"
    by (simp add: leafPem_def issuerPem_def otherPem_def BEGIN_CERTIFICATE_def)
  have p: "\<forall>c \<in> set (tl [leafPem @ ''\<newline>'', issuerPem, otherPem]). prefix BEGIN_CERTIFICATE c"
    by (simp add: issuerPem_def otherPem_def BEGIN_CERTIFICATE_def)
  show ?thesis
    using chainToCerts_joinLines [of "[leafPem @ ''\<newline>'', issuerPem, otherPem]"] b p
    by blast
qed

section \<open>The document assembler\<close>

lemma isObj_setChild: "isObj j \<Longrightarrow> isObj (setChild j s v)"
  by (cases "(j, s, v)" rule: setChild.cases) auto

lemma isObj_replaceAt: "isObj j \<Longrightarrow> (p = [] \<longrightarrow> isObj new) \<Longrightarrow> isObj (replaceAt j p new)"
  by (cases p) (auto simp: isObj_setChild split: option.splits)

lemma child_obj: "child j Proto = Some c \<Longrightarrow> isObj c"
  by (cases "(j, Proto)" rule: child.cases) auto

lemma child_setChild:
  "child j s = Some c \<Longrightarrow> (s = Proto \<longrightarrow> isObj v) \<Longrightarrow> child (setChild j s v) s = Some v"
  by (cases "(j, s, v)" rule: setChild.cases) (auto simp: update_conv' nth_opt_def split: if_splits)

lemma valueAt_replaceAt:
  "valueAt root cur = Some old \<Longrightarrow> (isObj old \<longrightarrow> isObj new) \<Longrightarrow>
   valueAt (replaceAt root cur new) cur = Some new"
proof (induction cur arbitrary: root)
  case Nil
  then show ?case by simp
next
  case (Cons s p)
  from Cons.prems(1) obtain c where c: "child root s = Some c" and v: "valueAt c p = Some old"
    by (auto split: option.splits)
  have "s = Proto \<longrightarrow> isObj (replaceAt c p new)"
  proof
    assume "s = Proto"
    with c have "isObj c" by (auto dest: child_obj)
    moreover have "p = [] \<longrightarrow> isObj new"
      using v \<open>isObj c\<close> Cons.prems(2) by auto
    ultimately show "isObj (replaceAt c p new)" by (rule isObj_replaceAt)
  qed
  with c have "child (setChild root s (replaceAt c p new)) s = Some (replaceAt c p new)"
    by (rule child_setChild)
  with c v Cons.IH [OF v Cons.prems(2)] show ?case by simp
qed

lemma valueAt_append:
  "valueAt root (p @ q) = (case valueAt root p of None \<Rightarrow> None | Some v \<Rightarrow> valueAt v q)"
  by (induction p arbitrary: root) (auto split: option.splits)

lemma valueAt_replaced_below:
  "valueAt root cur = Some old \<Longrightarrow> (isObj old \<longrightarrow> isObj new) \<Longrightarrow>
   valueAt (replaceAt root cur new) (cur @ q) = valueAt new q"
  by (simp add: valueAt_append valueAt_replaceAt)

lemma inherited_valueAt:
  "inherited props protos k = Some (n, x) \<Longrightarrow>
   valueAt (JObj props protos) (replicate n Proto @ [Prop k]) = Some x"
  by (induction props protos k arbitrary: n rule: inherited.induct)
     (auto split: option.splits)

lemma readProp_valueAt:
  "readProp props protos k = Value n x \<Longrightarrow>
   valueAt (JObj props protos) (replicate n Proto @ [Prop k]) = Some x"
  by (auto simp: readProp_def inherited_valueAt split: option.splits if_splits)

text \<open>After a falsy read, and after a read of \<^verbatim>\<open>undefined\<close>, the assignment makes an own property.\<close>

lemma falsy_assign:
  "\<not> truthy (readProp props protos k) \<Longrightarrow> assign props protos k x = JObj (AList.update k x props) protos"
  by (auto simp: assign_def readProp_def objectPrototypeNames_def split: option.splits)

lemma undefined_assign:
  "readProp props protos k = Undefined \<Longrightarrow>
   assign props protos k x = JObj (AList.update k x props) protos \<and> assigned props protos k = Prop k"
  by (auto simp: assign_def assigned_def readProp_def objectPrototypeNames_def split: option.splits if_splits)

lemma endsWithBrackets_examples:
  "endsWithBrackets ''parent[]''" "\<not> endsWithBrackets ''childB''" "endsWithBrackets ''constructor[]''"
  by (simp_all add: endsWithBrackets_def suffix_to_prefix)

lemma sliceOffBrackets_examples:
  "sliceOffBrackets ''parent[]'' = ''parent''" "sliceOffBrackets ''constructor[]'' = ''constructor''"
  by (simp_all add: sliceOffBrackets_def)

text \<open>
  Three more runs: a member of \<^verbatim>\<open>Object.prototype\<close> read as the array to append to,
  where the object keeps the \<^verbatim>\<open>a\<close> of the first segment; the key \<^verbatim>\<open>__proto__\<close> as a
  segment, which gives \<^verbatim>\<open>a\<close> a prototype that holds \<^verbatim>\<open>b\<close>; and two plain segments.
\<close>

lemma ex_constructor:
  "addValueAtPath ([], []) ''a/constructor[]/b'' ''x'' = Inl (TypeError, JObj [(''a'', JObj [] [])] [])"
  by (simp add: addValueAtPath_def forEachStep_def Let_def readProp_def assign_def assigned_def
      endsWithBrackets_def suffix_to_prefix sliceOffBrackets_def objectPrototypeNames_def)

lemma ex_proto:
  "addValueAtPath ([], []) ''a/__proto__/b'' ''x''
     = Inr (JObj [(''a'', JObj [] [[(''b'', JStr ''x'')]])] [])"
  by (simp add: addValueAtPath_def forEachStep_def Let_def readProp_def assign_def assigned_def
      endsWithBrackets_def suffix_to_prefix sliceOffBrackets_def objectPrototypeNames_def)

lemma ex_plain:
  "addValueAtPath ([], []) ''parent/child'' ''value''
     = Inr (JObj [(''parent'', JObj [(''child'', JStr ''value'')] [])] [])"
  by (simp add: addValueAtPath_def forEachStep_def Let_def readProp_def assign_def assigned_def
      endsWithBrackets_def suffix_to_prefix sliceOffBrackets_def objectPrototypeNames_def)

text \<open>
  C8, as the claim states it, fails. The document holds an array of one element at
  \<^verbatim>\<open>parent\<close>; adding \<^verbatim>\<open>valueB\<close> at \<^verbatim>\<open>parent[]/childB\<close> appends a second, fresh
  element and puts \<^verbatim>\<open>childB\<close> there, and the element that was the last one is left as
  it was.
\<close>

theorem addValueAtPath_existing_array_counterexample:
  "addValueAtPath exampleDoc ''parent[]/childB'' ''valueB''
     = Inr (JObj [(''parent'', JArr [JObj [(''childA'', JStr ''valueA'')] [],
                                      JObj [(''childB'', JStr ''valueB'')] []])] [])"
  by (simp add: addValueAtPath_def exampleDoc_def forEachStep_def Let_def readProp_def assign_def
      endsWithBrackets_examples sliceOffBrackets_examples nth_opt_def objectPrototypeNames_def)

text \<open>
  C8, amended. Let \<^verbatim>\<open>currentObj\<close> be an object of the document and \<open>key\<close> a segment
  that is not the last one. If \<open>key\<close> ends in \<^verbatim>\<open>[]\<close> and the read of the property, own
  or through the prototype chain, gives an array, a fresh empty object is appended
  to that array, whose elements stay as they were, and the descent goes to the
  appended element, the new last one. If the read gives \<^verbatim>\<open>undefined\<close> or a falsy
  value, the property becomes an array of one fresh empty object, to which the
  descent goes. If the read gives any other truthy value (a string that is not
  empty, an object, a member of \<^verbatim>\<open>Object.prototype\<close> such as \<^verbatim>\<open>constructor\<close>), nothing
  is created and a \<^verbatim>\<open>TypeError\<close> is thrown. If \<open>key\<close> does not end in \<^verbatim>\<open>[]\<close> and the
  read gives \<^verbatim>\<open>undefined\<close>, an empty object is created there and the descent goes to
  it.
\<close>

theorem forEachStep_descends:
  assumes "valueAt root cur = Some (JObj currentObj protos)"
  shows "(endsWithBrackets key \<and>
          readProp currentObj protos (sliceOffBrackets key) = Value n (JArr xs) \<longrightarrow>
            (\<exists>root'. forEachStep v False (root, cur) key
                        = Inr (root', cur @ replicate n Proto @ [Prop (sliceOffBrackets key), Elem (length xs)]) \<and>
               valueAt root' (cur @ replicate n Proto @ [Prop (sliceOffBrackets key)])
                 = Some (JArr (xs @ [JObj [] []])) \<and>
               valueAt root' (cur @ replicate n Proto @ [Prop (sliceOffBrackets key), Elem (length xs)])
                 = Some (JObj [] []))) \<and>
         (endsWithBrackets key \<and> \<not> truthy (readProp currentObj protos (sliceOffBrackets key)) \<longrightarrow>
            (\<exists>root'. forEachStep v False (root, cur) key
                        = Inr (root', cur @ [Prop (sliceOffBrackets key), Elem 0]) \<and>
               valueAt root' (cur @ [Prop (sliceOffBrackets key)]) = Some (JArr [JObj [] []]) \<and>
               valueAt root' (cur @ [Prop (sliceOffBrackets key), Elem 0]) = Some (JObj [] []))) \<and>
         (endsWithBrackets key \<and> truthy (readProp currentObj protos (sliceOffBrackets key)) \<and>
          (\<forall>m ys. readProp currentObj protos (sliceOffBrackets key) \<noteq> Value m (JArr ys)) \<longrightarrow>
            forEachStep v False (root, cur) key = Inl TypeError) \<and>
         (\<not> endsWithBrackets key \<and> readProp currentObj protos key = Undefined \<longrightarrow>
            (\<exists>root'. forEachStep v False (root, cur) key = Inr (root', cur @ [Prop key]) \<and>
               valueAt root' (cur @ [Prop key]) = Some (JObj [] [])))"
proof -
  let ?k = "sliceOffBrackets key"
  have push: "endsWithBrackets key \<Longrightarrow> readProp currentObj protos ?k = Value n (JArr xs) \<Longrightarrow>
      \<exists>root'. forEachStep v False (root, cur) key
                 = Inr (root', cur @ replicate n Proto @ [Prop ?k, Elem (length xs)]) \<and>
        valueAt root' (cur @ replicate n Proto @ [Prop ?k]) = Some (JArr (xs @ [JObj [] []])) \<and>
        valueAt root' (cur @ replicate n Proto @ [Prop ?k, Elem (length xs)]) = Some (JObj [] [])"
  proof -
    assume eb: "endsWithBrackets key" and rd: "readProp currentObj protos ?k = Value n (JArr xs)"
    let ?at = "cur @ replicate n Proto @ [Prop ?k]"
    let ?root' = "replaceAt root ?at (JArr (xs @ [JObj [] []]))"
    have at: "valueAt root ?at = Some (JArr xs)"
      using assms readProp_valueAt [OF rd] by (simp add: valueAt_append)
    have new: "valueAt ?root' ?at = Some (JArr (xs @ [JObj [] []]))"
      using at by (rule valueAt_replaceAt) simp
    have step: "forEachStep v False (root, cur) key
        = Inr (?root', cur @ replicate n Proto @ [Prop ?k, Elem (length xs)])"
      using assms eb rd by (simp add: forEachStep_def Let_def)
    have "valueAt ?root' (?at @ [Elem (length xs)]) = Some (JObj [] [])"
      using new by (simp add: valueAt_append nth_opt_def del: append_assoc)
    then have "valueAt ?root' (cur @ replicate n Proto @ [Prop ?k, Elem (length xs)]) = Some (JObj [] [])"
      by simp
    with step new show ?thesis by blast
  qed
  have fresh: "endsWithBrackets key \<Longrightarrow> \<not> truthy (readProp currentObj protos ?k) \<Longrightarrow>
      \<exists>root'. forEachStep v False (root, cur) key = Inr (root', cur @ [Prop ?k, Elem 0]) \<and>
        valueAt root' (cur @ [Prop ?k]) = Some (JArr [JObj [] []]) \<and>
        valueAt root' (cur @ [Prop ?k, Elem 0]) = Some (JObj [] [])"
    using assms
    by (simp add: forEachStep_def Let_def falsy_assign valueAt_replaced_below update_conv' nth_opt_def)
  have throws: "endsWithBrackets key \<Longrightarrow> truthy (readProp currentObj protos ?k) \<Longrightarrow>
      (\<forall>m ys. readProp currentObj protos ?k \<noteq> Value m (JArr ys)) \<Longrightarrow>
      forEachStep v False (root, cur) key = Inl TypeError"
    using assms
    by (auto simp: forEachStep_def Let_def split: propValue.splits jsval.splits)
  have plain: "\<not> endsWithBrackets key \<Longrightarrow> readProp currentObj protos key = Undefined \<Longrightarrow>
      \<exists>root'. forEachStep v False (root, cur) key = Inr (root', cur @ [Prop key]) \<and>
        valueAt root' (cur @ [Prop key]) = Some (JObj [] [])"
    using assms
    by (simp add: forEachStep_def Let_def undefined_assign valueAt_replaced_below update_conv')
  from push fresh throws plain show ?thesis by blast
qed

theorem forEachStep_descends_witness:
  "(\<exists>root'. forEachStep ''valueB'' False (JObj (fst exampleDoc) (snd exampleDoc), []) ''parent[]''
              = Inr (root', [Prop ''parent'', Elem 1]) \<and>
     valueAt root' [Prop ''parent'']
       = Some (JArr [JObj [(''childA'', JStr ''valueA'')] [], JObj [] []]) \<and>
     valueAt root' [Prop ''parent'', Elem 1] = Some (JObj [] [])) \<and>
   forEachStep ''valueB'' False (JObj [] [], []) ''constructor[]'' = Inl TypeError"
proof -
  have h: "valueAt (JObj (fst exampleDoc) (snd exampleDoc)) [] = Some (JObj (fst exampleDoc) (snd exampleDoc))"
    by simp
  have m: "readProp (fst exampleDoc) (snd exampleDoc) ''parent''
      = Value 0 (JArr [JObj [(''childA'', JStr ''valueA'')] []])"
    by (simp add: exampleDoc_def readProp_def)
  have h2: "valueAt (JObj [] []) [] = Some (JObj [] [])"
    by simp
  have m2: "readProp [] [] ''constructor'' = Native"
    by (simp add: readProp_def objectPrototypeNames_def)
  show ?thesis
    using forEachStep_descends [OF h, of "''parent[]''" 0 "[JObj [(''childA'', JStr ''valueA'')] []]"
        "''valueB''"]
      forEachStep_descends [OF h2, of "''constructor[]''" 0 "[]" "''valueB''"]
    by (simp add: endsWithBrackets_examples sliceOffBrackets_examples m m2)
qed


end
